theory Spec2Isabelle
  imports Main "HOL-Library.Sublist"
begin

section \<open>Python values used by the integration\<close>

text \<open>
  The integration is Python. Integers are unbounded (\<open>int\<close>), strings are lists of
  characters, \<open>None\<close> is \<open>None\<close>, and a dictionary key that may be missing is an
  optional field. An exception is a value: a function that can raise returns
  \<open>py_error + 'a\<close>, with \<open>Inl\<close> for the exception.
\<close>

datatype py_error = ValueError | KeyError | IndexError | TransportError

text \<open>
  \<open>try: body except (E1, E2): handler\<close>: the handler's value replaces the listed
  exceptions, any other exception passes through.
\<close>

definition try_except :: "py_error + 'a \<Rightarrow> py_error list \<Rightarrow> (py_error + 'a) \<Rightarrow> py_error + 'a" where
  "try_except body caught handler =
     (case body of
        Inl e \<Rightarrow> (if e \<in> set caught then handler else Inl e)
      | Inr v \<Rightarrow> Inr v)"

text \<open>\<open>s[i:j]\<close> for \<open>0 \<le> i \<le> j\<close>: a slice never raises, it is cut at the end of \<open>s\<close>.\<close>

definition py_slice :: "string \<Rightarrow> nat \<Rightarrow> nat \<Rightarrow> string" where
  "py_slice s i j = take (j - i) (drop i s)"

subsection \<open>\<open>str(n)\<close> of an integer\<close>

definition digit_char :: "nat \<Rightarrow> char" where
  "digit_char d = char_of (48 + d)"

fun dec_digits :: "nat \<Rightarrow> string" where
  "dec_digits n = (if n < 10 then [digit_char n] else dec_digits (n div 10) @ [digit_char (n mod 10)])"

definition py_str :: "int \<Rightarrow> string" where
  "py_str i = (if i < 0 then CHR ''-'' # dec_digits (nat (- i)) else dec_digits (nat i))"

subsection \<open>\<open>int(s, 16)\<close>\<close>

text \<open>
  The built-in \<open>int(s, 16)\<close>, as CPython parses it: surrounding whitespace is
  dropped, then an optional sign, an optional \<open>0x\<close> prefix (which may be followed by
  one underscore), then hexadecimal digits of either case with single underscores
  between them. Anything else raises \<open>ValueError\<close>. Characters are code points
  below 256; of those, the ones \<open>int\<close> treats as whitespace are the six ASCII
  ones and the code points 0x85 and 0xA0.
\<close>

definition py_isspace :: "char \<Rightarrow> bool" where
  "py_isspace c = (let n = (of_char c :: nat) in (9 \<le> n \<and> n \<le> 13) \<or> n = 32 \<or> n = 133 \<or> n = 160)"

definition hex_digit_value :: "char \<Rightarrow> nat option" where
  "hex_digit_value c =
     (let n = (of_char c :: nat) in
      if 48 \<le> n \<and> n \<le> 57 then Some (n - 48)
      else if 97 \<le> n \<and> n \<le> 102 then Some (n - 87)
      else if 65 \<le> n \<and> n \<le> 70 then Some (n - 55)
      else None)"

text \<open>
  The digit scan: \<open>prev_us\<close> says that the previous character was an underscore,
  \<open>acc\<close> is the value so far and \<open>n\<close> the number of digits. It stops at the first
  character that is neither a digit nor an underscore and returns the rest; two
  underscores in a row or one at the end are refused.
\<close>

fun scan_hex :: "bool \<Rightarrow> nat \<Rightarrow> nat \<Rightarrow> string \<Rightarrow> (nat \<times> nat \<times> string) option" where
  "scan_hex prev_us acc n [] = (if prev_us then None else Some (acc, n, []))"
| "scan_hex prev_us acc n (c # cs) =
     (if c = CHR ''_'' then (if prev_us then None else scan_hex True acc n cs)
      else case hex_digit_value c of
             Some d \<Rightarrow> scan_hex False (16 * acc + d) (Suc n) cs
           | None \<Rightarrow> (if prev_us then None else Some (acc, n, c # cs)))"

definition strip_sign :: "string \<Rightarrow> int \<times> string" where
  "strip_sign s =
     (case s of
        [] \<Rightarrow> (1, s)
      | c # r \<Rightarrow> (if c = CHR ''+'' then (1, r) else if c = CHR ''-'' then (- 1, r) else (1, s)))"

definition strip_0x :: "string \<Rightarrow> string" where
  "strip_0x s =
     (case s of
        c # x # r \<Rightarrow>
          (if c = CHR ''0'' \<and> (x = CHR ''x'' \<or> x = CHR ''X'')
           then (case r of [] \<Rightarrow> r | u # r' \<Rightarrow> (if u = CHR ''_'' then r' else r))
           else s)
      | _ \<Rightarrow> s)"

definition py_int16 :: "string \<Rightarrow> py_error + int" where
  "py_int16 s =
     (let (sgn, s2) = strip_sign (dropWhile py_isspace s);
          s3 = strip_0x s2
      in if take 1 s3 = ''_'' then Inl ValueError
         else case scan_hex False 0 0 s3 of
                None \<Rightarrow> Inl ValueError
              | Some (v, n, rest) \<Rightarrow>
                  (if n = 0 then Inl ValueError
                   else if dropWhile py_isspace rest \<noteq> [] then Inl ValueError
                   else Inr (sgn * int v)))"

section \<open>Log enrichment (lock\_log\_manager.py)\<close>

subsection \<open>User id extraction\<close>

text \<open>
  \<open>SwitchBotLockLogManager._extract_user_id\<close>. The guard returns \<open>None\<close> for an
  empty or short payload. Inside the \<open>try\<close>, the first two bytes are compared as
  text and byte 2 is parsed by \<open>int(payload[4:6], 16)\<close>; \<open>ValueError\<close> and
  \<open>IndexError\<close> are caught and fall through to the final \<open>return None\<close>.
\<close>

definition extract_user_id :: "string \<Rightarrow> py_error + int option" where
  "extract_user_id payload =
     (if payload = [] \<or> length payload < 6 then Inr None
      else try_except
             (if py_slice payload 0 2 = ''59'' \<and> py_slice payload 2 4 \<in> set [''01'', ''03'']
              then (case py_int16 (py_slice payload 4 6) of
                      Inl e \<Rightarrow> Inl e
                    | Inr user_id \<Rightarrow> Inr (if user_id > 0 then Some user_id else None))
              else Inr None)
             [ValueError, IndexError]
             (Inr None))"

text \<open>
  The pattern of the specification, \<open>59 01|03 XX 00 00\<close> in the reading the
  testable property gives it: at least twelve characters, byte 0 is 0x59, byte 1 is
  0x01 or 0x03, byte 2 is any hexadecimal byte and bytes 3 to 5 are zero.
\<close>

definition spec_pattern :: "string \<Rightarrow> bool" where
  "spec_pattern p =
     (12 \<le> length p \<and> py_slice p 0 2 = ''59'' \<and> py_slice p 2 4 \<in> set [''01'', ''03'']
      \<and> hex_digit_value (p ! 4) \<noteq> None \<and> hex_digit_value (p ! 5) \<noteq> None
      \<and> py_slice p 6 12 = ''000000'')"

subsection \<open>Labels\<close>

text \<open>
  \<open>str.lower\<close>, \<open>str.title\<close> and \<open>str.replace("_", " ")\<close> on the ASCII names
  of enumeration members. \<open>title\<close> puts a letter in upper case when the character
  before it is not a letter, and in lower case otherwise.
\<close>

definition is_upper :: "char \<Rightarrow> bool" where
  "is_upper c = (let n = (of_char c :: nat) in 65 \<le> n \<and> n \<le> 90)"

definition is_lower :: "char \<Rightarrow> bool" where
  "is_lower c = (let n = (of_char c :: nat) in 97 \<le> n \<and> n \<le> 122)"

definition to_lower :: "char \<Rightarrow> char" where
  "to_lower c = (if is_upper c then char_of (of_char c + (32 :: nat)) else c)"

definition to_upper :: "char \<Rightarrow> char" where
  "to_upper c = (if is_lower c then char_of (of_char c - (32 :: nat)) else c)"

definition py_lower :: "string \<Rightarrow> string" where
  "py_lower s = map to_lower s"

fun title_from :: "bool \<Rightarrow> string \<Rightarrow> string" where
  "title_from prev_cased [] = []"
| "title_from prev_cased (c # cs) =
     (if is_lower c then (if prev_cased then c else to_upper c) # title_from True cs
      else if is_upper c then (if prev_cased then to_lower c else c) # title_from True cs
      else c # title_from False cs)"

definition py_title :: "string \<Rightarrow> string" where
  "py_title s = title_from False s"

definition replace_underscores :: "string \<Rightarrow> string" where
  "replace_underscores s = map (\<lambda>c. if c = CHR ''_'' then CHR '' '' else c) s"

text \<open>
  \<open>LockLogSource\<close> and \<open>LockLogAction\<close> are enumerations of the \<open>switchbot\<close>
  library, which is not part of this repository: each is a parameter here, the map
  from a member's value to its name. Calling an enumeration with a value that no
  member has raises \<open>ValueError\<close>.
\<close>

type_synonym py_enum = "int \<rightharpoonup> string"

definition enum_call :: "py_enum \<Rightarrow> int \<Rightarrow> py_error + string" where
  "enum_call E v = (case E v of None \<Rightarrow> Inl ValueError | Some member_name \<Rightarrow> Inr member_name)"

subsection \<open>Records\<close>

text \<open>
  A raw log is a dictionary; the code reads the four keys below and guards each read
  against a missing key, so each field is optional.
\<close>

record raw_log =
  timestamp :: "int option"
  source :: "int option"
  action :: "int option"
  payload :: "string option"

text \<open>\<open>{**log, "user_id": ..., "user_name": ..., "source_display": ..., "action_name": ...}\<close>\<close>

record enriched_log = raw_log +
  user_id :: "int option"
  user_name :: "string option"
  source_display :: string
  action_name :: string

text \<open>\<open>log.get("timestamp", 0)\<close> and \<open>log.get("payload", "")\<close>\<close>

definition get_timestamp :: "'a raw_log_scheme \<Rightarrow> int" where
  "get_timestamp log = (case timestamp log of None \<Rightarrow> 0 | Some t \<Rightarrow> t)"

definition get_payload :: "'a raw_log_scheme \<Rightarrow> string" where
  "get_payload log = (case payload log of None \<Rightarrow> [] | Some p \<Rightarrow> p)"

text \<open>\<open>log["source"]\<close> and \<open>log["action"]\<close>: a missing key raises \<open>KeyError\<close>.\<close>

definition getitem :: "int option \<Rightarrow> py_error + int" where
  "getitem field = (case field of None \<Rightarrow> Inl KeyError | Some v \<Rightarrow> Inr v)"

text \<open>The text of \<open>{log.get(key, '?')}\<close> inside an f-string.\<close>

definition format_or_question :: "int option \<Rightarrow> string" where
  "format_or_question field = (case field of None \<Rightarrow> ''?'' | Some v \<Rightarrow> py_str v)"

section \<open>User name storage (storage.py)\<close>

text \<open>
  \<open>SwitchBotLockUserStore\<close>: \<open>_data\<close> maps a lock's MAC address to
  \<open>{"name": ..., "users": {...}}\<close>. The store reads \<open>"users"\<close> with a default and
  tests for the key before deleting, so the key may be missing in a loaded document:
  \<open>lock_users\<close> is optional. \<open>store_file\<close> is the document last handed to
  \<open>Store.async_save\<close>, \<open>None\<close> before the first save.
\<close>

record lock_data =
  lock_name :: "string option"
  lock_users :: "(string \<rightharpoonup> string) option"

record user_store =
  store_data :: "string \<rightharpoonup> lock_data"
  store_file :: "(string \<rightharpoonup> lock_data) option"

definition user_store_init :: user_store where
  "user_store_init = \<lparr>store_data = Map.empty, store_file = None\<rparr>"

definition new_lock_data :: lock_data where
  "new_lock_data = \<lparr>lock_name = None, lock_users = Some Map.empty\<rparr>"

definition async_save :: "user_store \<Rightarrow> user_store" where
  "async_save st = st\<lparr>store_file := Some (store_data st)\<rparr>"

definition async_get_lock_data :: "user_store \<Rightarrow> string \<Rightarrow> lock_data" where
  "async_get_lock_data st lock = (case store_data st lock of None \<Rightarrow> new_lock_data | Some d \<Rightarrow> d)"

definition async_get_users :: "user_store \<Rightarrow> string \<Rightarrow> (string \<rightharpoonup> string)" where
  "async_get_users st lock =
     (case lock_users (async_get_lock_data st lock) of None \<Rightarrow> Map.empty | Some us \<Rightarrow> us)"

text \<open>
  \<open>async_set_user\<close>: \<open>self._data[mac]["users"][str(user_id)] = name\<close> raises
  \<open>KeyError\<close> when the lock's entry has no \<open>"users"\<close> key; nothing has been changed
  at that point, since the entry was already there. The result is the outcome and the
  store after the call.
\<close>

definition async_set_user :: "user_store \<Rightarrow> string \<Rightarrow> int \<Rightarrow> string \<Rightarrow> (py_error + unit) \<times> user_store" where
  "async_set_user st lock uid new_name =
     (let st1 = (if store_data st lock = None
                 then st\<lparr>store_data := (store_data st)(lock \<mapsto> new_lock_data)\<rparr> else st)
      in case store_data st1 lock of
           None \<Rightarrow> (Inl KeyError, st1)
         | Some d \<Rightarrow>
             (case lock_users d of
                None \<Rightarrow> (Inl KeyError, st1)
              | Some us \<Rightarrow>
                  (Inr (), async_save (st1\<lparr>store_data :=
                     (store_data st1)(lock \<mapsto> d\<lparr>lock_users := Some (us(py_str uid \<mapsto> new_name))\<rparr>)\<rparr>))))"

text \<open>\<open>async_delete_user\<close>: \<open>pop(str(user_id), None)\<close> never raises.\<close>

definition async_delete_user :: "user_store \<Rightarrow> string \<Rightarrow> int \<Rightarrow> user_store" where
  "async_delete_user st lock uid =
     (case store_data st lock of
        None \<Rightarrow> st
      | Some d \<Rightarrow>
          (case lock_users d of
             None \<Rightarrow> st
           | Some us \<Rightarrow>
               async_save (st\<lparr>store_data :=
                 (store_data st)(lock \<mapsto> d\<lparr>lock_users := Some (us(py_str uid := None))\<rparr>)\<rparr>)))"

section \<open>Enriching a batch\<close>

text \<open>
  The loop body of \<open>_enrich_logs\<close>, in its four steps. The user name is looked
  up only for a user id that is present and whose string form is a key of \<open>users\<close>.
\<close>

definition user_name_of :: "(string \<rightharpoonup> string) \<Rightarrow> int option \<Rightarrow> string option" where
  "user_name_of users uid =
     (case uid of
        None \<Rightarrow> None
      | Some u \<Rightarrow> (if users (py_str u) \<noteq> None then users (py_str u) else None))"

text \<open>
  Each \<open>try\<close> catches \<open>ValueError\<close> (a value that is no member) and \<open>KeyError\<close>
  (a missing key) and formats the fallback label.
\<close>

definition source_display_of :: "py_enum \<Rightarrow> raw_log \<Rightarrow> py_error + string" where
  "source_display_of LockLogSource log =
     try_except
       (case getitem (source log) of
          Inl e \<Rightarrow> Inl e
        | Inr v \<Rightarrow> (case enum_call LockLogSource v of
                      Inl e \<Rightarrow> Inl e
                    | Inr source_name \<Rightarrow> Inr (py_title (replace_underscores source_name))))
       [ValueError, KeyError]
       (Inr (''Unknown (Source '' @ format_or_question (source log) @ '')''))"

definition action_name_of :: "py_enum \<Rightarrow> raw_log \<Rightarrow> py_error + string" where
  "action_name_of LockLogAction log =
     try_except
       (case getitem (action log) of
          Inl e \<Rightarrow> Inl e
        | Inr v \<Rightarrow> (case enum_call LockLogAction v of
                      Inl e \<Rightarrow> Inl e
                    | Inr member_name \<Rightarrow> Inr (py_lower member_name)))
       [ValueError, KeyError]
       (Inr (''unknown_'' @ format_or_question (action log)))"

definition enrich_log :: "(string \<rightharpoonup> string) \<Rightarrow> py_enum \<Rightarrow> py_enum \<Rightarrow> raw_log \<Rightarrow> py_error + enriched_log" where
  "enrich_log users LockLogSource LockLogAction log =
     (case extract_user_id (get_payload log) of
        Inl e \<Rightarrow> Inl e
      | Inr uid \<Rightarrow>
          (case source_display_of LockLogSource log of
             Inl e \<Rightarrow> Inl e
           | Inr sd \<Rightarrow>
               (case action_name_of LockLogAction log of
                  Inl e \<Rightarrow> Inl e
                | Inr an \<Rightarrow>
                    Inr \<lparr>timestamp = timestamp log, source = source log, action = action log,
                         payload = payload log, user_id = uid, user_name = user_name_of users uid,
                         source_display = sd, action_name = an\<rparr>)))"

text \<open>The loop of \<open>_enrich_logs\<close>: \<open>enriched\<close> starts empty and grows by \<open>append\<close>.\<close>

fun enrich_loop :: "(string \<rightharpoonup> string) \<Rightarrow> py_enum \<Rightarrow> py_enum \<Rightarrow> raw_log list \<Rightarrow> enriched_log list \<Rightarrow> py_error + enriched_log list" where
  "enrich_loop users LockLogSource LockLogAction [] enriched = Inr enriched"
| "enrich_loop users LockLogSource LockLogAction (log # logs) enriched =
     (case enrich_log users LockLogSource LockLogAction log of
        Inl e \<Rightarrow> Inl e
      | Inr enriched_log \<Rightarrow> enrich_loop users LockLogSource LockLogAction logs (enriched @ [enriched_log]))"

definition enrich_logs :: "user_store \<Rightarrow> string \<Rightarrow> py_enum \<Rightarrow> py_enum \<Rightarrow> raw_log list \<Rightarrow> py_error + enriched_log list" where
  "enrich_logs st lock LockLogSource LockLogAction logs =
     enrich_loop (async_get_users st lock) LockLogSource LockLogAction logs []"

section \<open>The log manager and its sensors\<close>

subsection \<open>State\<close>

text \<open>
  The last-user sensor (sensor.py) keeps \<open>_last_processed_timestamp\<close> and
  \<open>_current_log\<close>.
\<close>

record tracker =
  last_processed_timestamp :: int
  current_log :: "enriched_log option"

definition tracker_init :: tracker where
  "tracker_init = \<lparr>last_processed_timestamp = 0, current_log = None\<rparr>"

text \<open>
  The listeners registered with a manager are the \<open>_handle_log_update\<close> methods of
  the two sensors of sensor.py; a listener is the sensor it belongs to.
\<close>

datatype listener = LastActivitySensor | LastUserSensor tracker

text \<open>
  \<open>SwitchBotLockLogManager\<close>. Python lists are objects: \<open>list_objects\<close> holds the
  contents of every list the manager has created, a list's address is its index, and
  \<open>latest_logs_ref\<close> is the address that \<open>self._latest_logs\<close> is bound to.
  \<open>ha_state_writes\<close> counts the calls of \<open>async_write_ha_state\<close> made by listeners.
\<close>

record manager =
  mgr_mac :: string
  list_objects :: "enriched_log list list"
  latest_logs_ref :: nat
  listeners :: "listener list"
  ha_state_writes :: nat

definition manager_init :: "string \<Rightarrow> manager" where
  "manager_init lock =
     \<lparr>mgr_mac = lock, list_objects = [[]], latest_logs_ref = 0, listeners = [], ha_state_writes = 0\<rparr>"

text \<open>A reference is bound to an object that exists.\<close>

definition manager_ok :: "manager \<Rightarrow> bool" where
  "manager_ok m = (latest_logs_ref m < length (list_objects m))"

text \<open>The contents of the list \<open>self._latest_logs\<close>.\<close>

definition cached :: "manager \<Rightarrow> enriched_log list" where
  "cached m = list_objects m ! latest_logs_ref m"

subsection \<open>Reading the cache\<close>

text \<open>\<open>latest_log\<close>: \<open>self._latest_logs[0] if self._latest_logs else None\<close>\<close>

definition latest_log :: "manager \<Rightarrow> enriched_log option" where
  "latest_log m = (case cached m of [] \<Rightarrow> None | first # _ \<Rightarrow> Some first)"

text \<open>
  \<open>latest_logs\<close>: \<open>self._latest_logs.copy()\<close> makes a new list object with the same
  entries; the result is its address and the manager with the new object.
\<close>

definition latest_logs :: "manager \<Rightarrow> nat \<times> manager" where
  "latest_logs m = (length (list_objects m), m\<lparr>list_objects := list_objects m @ [cached m]\<rparr>)"

subsection \<open>The last-user sensor\<close>

text \<open>\<open>SwitchBotLockLastUserSensor._is_valid_payload\<close>\<close>

definition is_valid_payload :: "string \<Rightarrow> bool" where
  "is_valid_payload p = (if p = [] \<or> length p < 6 then False else p \<noteq> ''000000000000'')"

text \<open>The loop of \<open>_get_newest_valid_log\<close>, which returns at the first match.\<close>

fun newest_valid_loop :: "int \<Rightarrow> enriched_log list \<Rightarrow> enriched_log option" where
  "newest_valid_loop last_ts [] = None"
| "newest_valid_loop last_ts (log # logs) =
     (if get_timestamp log > last_ts \<and> is_valid_payload (get_payload log) then Some log
      else newest_valid_loop last_ts logs)"

text \<open>
  \<open>_get_newest_valid_log\<close> iterates over \<open>self._log_manager.latest_logs\<close>, the copy;
  the copy is dropped when the method returns.
\<close>

definition get_newest_valid_log :: "manager \<Rightarrow> tracker \<Rightarrow> enriched_log option" where
  "get_newest_valid_log m t =
     (let (a, m') = latest_logs m
      in newest_valid_loop (last_processed_timestamp t) (list_objects m' ! a))"

text \<open>
  \<open>SwitchBotLockLastUserSensor._handle_log_update\<close>. An enriched log is a dictionary
  with at least four keys, so \<open>if new_log\<close> holds exactly when a log was found.
\<close>

definition handle_log_update :: "manager \<Rightarrow> tracker \<Rightarrow> tracker" where
  "handle_log_update m t =
     (case get_newest_valid_log m t of
        None \<Rightarrow> t
      | Some new_log \<Rightarrow> t\<lparr>current_log := Some new_log, last_processed_timestamp := get_timestamp new_log\<rparr>)"

text \<open>\<open>native_value\<close> of the last-user sensor, the value \<open>async_write_ha_state\<close> publishes.\<close>

definition native_value :: "tracker \<Rightarrow> string option" where
  "native_value t = (case current_log t of None \<Rightarrow> None | Some log \<Rightarrow> user_name log)"

text \<open>A run of update calls, each one seeing the manager as it is at that call.\<close>

definition run_updates :: "tracker \<Rightarrow> manager list \<Rightarrow> tracker" where
  "run_updates t ms = foldl (\<lambda>t' m. handle_log_update m t') t ms"

text \<open>The invariant of the sensor: the current entry is not older than the mark.\<close>

definition entry_at_mark :: "tracker \<Rightarrow> bool" where
  "entry_at_mark t =
     (case current_log t of None \<Rightarrow> True | Some e \<Rightarrow> last_processed_timestamp t \<le> get_timestamp e)"

text \<open>
  The selection as the specification words it: the first entry, in the order given,
  that is strictly newer than the high-water mark and whose payload has at least six
  characters and is not twelve zeros.
\<close>

definition spec_accepts :: "int \<Rightarrow> enriched_log \<Rightarrow> bool" where
  "spec_accepts last_ts log =
     (get_timestamp log > last_ts \<and> length (get_payload log) \<ge> 6 \<and> get_payload log \<noteq> ''000000000000'')"

definition spec_selection :: "int \<Rightarrow> enriched_log list \<Rightarrow> enriched_log option" where
  "spec_selection last_ts batch = find (spec_accepts last_ts) batch"

subsection \<open>Notification and fetch\<close>

text \<open>
  Calling a listener: the base sensor's handler only writes its state, the last-user
  sensor's handler updates its tracker first.
\<close>

definition call_listener :: "manager \<Rightarrow> listener \<Rightarrow> listener" where
  "call_listener m l =
     (case l of
        LastActivitySensor \<Rightarrow> LastActivitySensor
      | LastUserSensor t \<Rightarrow> LastUserSensor (handle_log_update m t))"

definition async_add_listener :: "listener \<Rightarrow> manager \<Rightarrow> manager" where
  "async_add_listener l m = m\<lparr>listeners := listeners m @ [l]\<rparr>"

text \<open>\<open>_notify_listeners\<close>: every listener is called once, and each writes its state once.\<close>

definition notify_listeners :: "manager \<Rightarrow> manager" where
  "notify_listeners m =
     m\<lparr>listeners := map (call_listener m) (listeners m),
       ha_state_writes := ha_state_writes m + length (listeners m)\<rparr>"

text \<open>\<open>self._latest_logs = enriched_logs\<close> binds the attribute to the new list object.\<close>

definition set_latest_logs :: "enriched_log list \<Rightarrow> manager \<Rightarrow> manager" where
  "set_latest_logs enriched m =
     m\<lparr>list_objects := list_objects m @ [enriched], latest_logs_ref := length (list_objects m)\<rparr>"

text \<open>
  \<open>async_fetch_logs\<close>. The device is a parameter: \<open>get_logs base_time max_entries\<close>
  is the outcome of \<open>self._lock_device.get_logs(base_time, max_entries)\<close>, an
  exception, \<open>None\<close> or a list of raw logs. The result is what the caller gets (the
  exception or the entries of the returned list) and the manager after the call.
\<close>

definition async_fetch_logs ::
  "user_store \<Rightarrow> py_enum \<Rightarrow> py_enum \<Rightarrow> (int \<Rightarrow> int \<Rightarrow> py_error + raw_log list option) \<Rightarrow>
   int \<Rightarrow> int \<Rightarrow> manager \<Rightarrow> (py_error + enriched_log list) \<times> manager" where
  "async_fetch_logs st LockLogSource LockLogAction get_logs base_time max_entries m =
     (case get_logs base_time max_entries of
        Inl e \<Rightarrow> (Inl e, m)
      | Inr None \<Rightarrow> (Inr [], m)
      | Inr (Some logs) \<Rightarrow>
          (if logs = [] then (Inr [], m)
           else case enrich_logs st (mgr_mac m) LockLogSource LockLogAction logs of
                  Inl e \<Rightarrow> (Inl e, m)
                | Inr enriched_logs \<Rightarrow> (Inr enriched_logs, notify_listeners (set_latest_logs enriched_logs m))))"

section \<open>Example data\<close>

text \<open>Inputs for the concrete instances below.\<close>

definition example_raw :: "int \<Rightarrow> string \<Rightarrow> raw_log" where
  "example_raw ts p = \<lparr>timestamp = Some ts, source = Some 1, action = Some 1, payload = Some p\<rparr>"

definition example_entry :: "int \<Rightarrow> string \<Rightarrow> int option \<Rightarrow> string option \<Rightarrow> enriched_log" where
  "example_entry ts p uid uname =
     \<lparr>timestamp = Some ts, source = Some 1, action = Some 1, payload = Some p,
      user_id = uid, user_name = uname, source_display = ''Manual'', action_name = ''unlock''\<rparr>"

definition example_manager :: "enriched_log list \<Rightarrow> manager" where
  "example_manager batch = set_latest_logs batch (manager_init ''AA:BB'')"

definition example_enum :: py_enum where
  "example_enum = [1 \<mapsto> ''MANUAL'', 2 \<mapsto> ''APP_REMOTE'']"

section \<open>Properties\<close>

subsection \<open>Parsing\<close>

lemma py_int16_only_ValueError: "py_int16 s = Inl e \<Longrightarrow> e = ValueError"
  by (simp add: py_int16_def Let_def split: prod.splits option.splits if_splits)

lemma hex_digit_not_space: "hex_digit_value c = Some d \<Longrightarrow> \<not> py_isspace c"
  by (simp add: hex_digit_value_def py_isspace_def Let_def split: if_splits)

lemma hex_digit_not_special:
  "hex_digit_value c = Some d \<Longrightarrow>
     c \<noteq> CHR ''+'' \<and> c \<noteq> CHR ''-'' \<and> c \<noteq> CHR ''_'' \<and> c \<noteq> CHR ''x'' \<and> c \<noteq> CHR ''X''"
  by (auto simp: hex_digit_value_def Let_def split: if_splits)

text \<open>Two hexadecimal digits parse to their value.\<close>

lemma py_int16_two_digits:
  assumes "hex_digit_value a = Some x" and "hex_digit_value b = Some y"
  shows "py_int16 [a, b] = Inr (int (16 * x + y))"
  using assms hex_digit_not_space [OF assms(1)] hex_digit_not_special [OF assms(1)]
    hex_digit_not_special [OF assms(2)]
  by (simp add: py_int16_def strip_sign_def strip_0x_def)

lemma py_slice_4_6: "6 \<le> length p \<Longrightarrow> py_slice p 4 6 = [p ! 4, p ! 5]"
proof -
  assume len: "6 \<le> length p"
  have "take 2 (drop 4 p) = [p ! 4, p ! 5]"
  proof (rule nth_equalityI)
    show "length (take 2 (drop 4 p)) = length [p ! 4, p ! 5]" using len by simp
  next
    fix i assume "i < length (take 2 (drop 4 p))"
    then have "i < 2" by simp
    then have "i = 0 \<or> i = 1" by arith
    then show "take 2 (drop 4 p) ! i = [p ! 4, p ! 5] ! i" using len by auto
  qed
  then show ?thesis by (simp add: py_slice_def)
qed

subsection \<open>User id extraction\<close>

text \<open>The three ways through \<open>_extract_user_id\<close>.\<close>

lemma extract_user_id_short: "length p < 6 \<Longrightarrow> extract_user_id p = Inr None"
  by (simp add: extract_user_id_def)

lemma extract_user_id_branches:
  assumes len: "6 \<le> length p"
  shows "\<not> (py_slice p 0 2 = ''59'' \<and> py_slice p 2 4 \<in> set [''01'', ''03''])
           \<Longrightarrow> extract_user_id p = Inr None"
    and "py_slice p 0 2 = ''59'' \<and> py_slice p 2 4 \<in> set [''01'', ''03'']
           \<Longrightarrow> extract_user_id p =
                 (case py_int16 (py_slice p 4 6) of
                    Inl e \<Rightarrow> Inr None
                  | Inr v \<Rightarrow> Inr (if v > 0 then Some v else None))"
proof -
  define matches where
    "matches = (py_slice p 0 2 = ''59'' \<and> py_slice p 2 4 \<in> set [''01'', ''03''])"
  have unfolded: "extract_user_id p =
     (if p = [] \<or> length p < 6 then Inr None
      else try_except
             (if matches
              then (case py_int16 (py_slice p 4 6) of
                      Inl e \<Rightarrow> Inl e
                    | Inr v \<Rightarrow> Inr (if v > 0 then Some v else None))
              else Inr None)
             [ValueError, IndexError]
             (Inr None))"
    unfolding extract_user_id_def matches_def by (rule refl)
  from len have ne: "p \<noteq> []" by auto
  {
    assume "\<not> matches"
    with len ne show "extract_user_id p = Inr None"
      by (simp add: unfolded try_except_def)
  next
    assume m: "matches"
    show "extract_user_id p =
            (case py_int16 (py_slice p 4 6) of
               Inl e \<Rightarrow> Inr None
             | Inr v \<Rightarrow> Inr (if v > 0 then Some v else None))"
    proof (cases "py_int16 (py_slice p 4 6)")
      case (Inl e)
      then have "e = ValueError" by (rule py_int16_only_ValueError)
      with Inl m len ne show ?thesis by (simp add: unfolded try_except_def)
    next
      case (Inr v)
      with m len ne show ?thesis by (simp add: unfolded try_except_def)
    qed
  }
qed

lemma extract_user_id_total: "\<exists>r. extract_user_id p = Inr r"
proof (cases "6 \<le> length p")
  case False
  then show ?thesis by (simp add: extract_user_id_short)
next
  case len: True
  show ?thesis
  proof (cases "py_slice p 0 2 = ''59'' \<and> py_slice p 2 4 \<in> set [''01'', ''03'']")
    case False
    with len have "extract_user_id p = Inr None" by (rule extract_user_id_branches(1))
    then show ?thesis by simp
  next
    case True
    with len have "extract_user_id p =
        (case py_int16 (py_slice p 4 6) of
           Inl e \<Rightarrow> Inr None
         | Inr v \<Rightarrow> Inr (if v > 0 then Some v else None))"
      by (rule extract_user_id_branches(2))
    then show ?thesis by (simp split: sum.split)
  qed
qed

lemmas extract_eval =
  extract_user_id_def try_except_def py_slice_def py_int16_def strip_sign_def strip_0x_def
  py_isspace_def hex_digit_value_def

text \<open>
  C3, as the code has it. The claim says that a payload outside the pattern
  \<open>59 01|03 XX 00 00\<close>, with bytes 3 to 5 zero, has no user id. The code reads the
  first three bytes only: a payload that is shorter than six characters, or does not
  start with \<open>59\<close> followed by \<open>01\<close> or \<open>03\<close>, has no user id, whatever follows.
\<close>

theorem extract_user_id_absent_unless_prefix:
  "\<not> (6 \<le> length p \<and> py_slice p 0 2 = ''59'' \<and> py_slice p 2 4 \<in> set [''01'', ''03''])
     \<Longrightarrow> extract_user_id p = Inr None"
proof -
  assume h: "\<not> (6 \<le> length p \<and> py_slice p 0 2 = ''59'' \<and> py_slice p 2 4 \<in> set [''01'', ''03''])"
  show ?thesis
  proof (cases "6 \<le> length p")
    case False
    then show ?thesis by (simp add: extract_user_id_short)
  next
    case True
    with h have "\<not> (py_slice p 0 2 = ''59'' \<and> py_slice p 2 4 \<in> set [''01'', ''03''])"
      by simp
    with True show ?thesis by (rule extract_user_id_branches(1))
  qed
qed

theorem extract_user_id_absent_unless_prefix_witness:
  "\<not> (6 \<le> length ''580105000000'' \<and> py_slice ''580105000000'' 0 2 = ''59''
        \<and> py_slice ''580105000000'' 2 4 \<in> set [''01'', ''03''])
   \<and> extract_user_id ''580105000000'' = Inr None"
proof -
  have h: "\<not> (6 \<le> length ''580105000000'' \<and> py_slice ''580105000000'' 0 2 = ''59''
        \<and> py_slice ''580105000000'' 2 4 \<in> set [''01'', ''03''])"
    by (simp add: py_slice_def)
  have r: "extract_user_id ''580105000000'' = Inr None"
    using h by (rule extract_user_id_absent_unless_prefix)
  from h r show ?thesis by (rule conjI)
qed

text \<open>
  C3 as stated fails: \<open>590105FFFFFF\<close> is outside the pattern, its bytes 3 to 5 are
  not zero, and its user id is 5.
\<close>

theorem extract_user_id_outside_pattern:
  "\<not> spec_pattern ''590105FFFFFF'' \<and> extract_user_id ''590105FFFFFF'' = Inr (Some 5)"
  by (simp add: spec_pattern_def extract_eval)

text \<open>
  C4, as the code has it. For a payload of at least six characters that starts with
  \<open>59\<close> and \<open>01\<close> or \<open>03\<close> and whose characters 4 and 5 are hexadecimal digits,
  the user id is the value of that byte, and absent when the value is zero; a short
  payload and a byte that does not parse give no user id; and the function never
  raises. So \<open>590300000000\<close> has no user id and \<open>590305000000\<close> has user id 5.
\<close>

theorem extract_user_id_byte2:
  "(6 \<le> length p \<and> py_slice p 0 2 = ''59'' \<and> py_slice p 2 4 \<in> set [''01'', ''03'']
      \<and> hex_digit_value (p ! 4) = Some x \<and> hex_digit_value (p ! 5) = Some y
     \<longrightarrow> extract_user_id p = Inr (if 16 * x + y = 0 then None else Some (int (16 * x + y))))
   \<and> (length p < 6 \<longrightarrow> extract_user_id p = Inr None)
   \<and> (py_int16 (py_slice p 4 6) = Inl e \<longrightarrow> extract_user_id p = Inr None)
   \<and> (\<exists>r. extract_user_id p = Inr r)
   \<and> extract_user_id ''590300000000'' = Inr None
   \<and> extract_user_id ''590305000000'' = Inr (Some 5)"
proof (intro conjI impI)
  assume h: "6 \<le> length p \<and> py_slice p 0 2 = ''59'' \<and> py_slice p 2 4 \<in> set [''01'', ''03'']
      \<and> hex_digit_value (p ! 4) = Some x \<and> hex_digit_value (p ! 5) = Some y"
  then have len: "6 \<le> length p"
    and m: "py_slice p 0 2 = ''59'' \<and> py_slice p 2 4 \<in> set [''01'', ''03'']"
    and dx: "hex_digit_value (p ! 4) = Some x" and dy: "hex_digit_value (p ! 5) = Some y"
    by simp_all
  have "py_int16 (py_slice p 4 6) = Inr (int (16 * x + y))"
    using len dx dy by (simp add: py_slice_4_6 py_int16_two_digits)
  then show "extract_user_id p = Inr (if 16 * x + y = 0 then None else Some (int (16 * x + y)))"
    by (simp add: extract_user_id_branches(2) [OF len m])
next
  assume "length p < 6"
  then show "extract_user_id p = Inr None" by (rule extract_user_id_short)
next
  assume bad: "py_int16 (py_slice p 4 6) = Inl e"
  show "extract_user_id p = Inr None"
  proof (cases "6 \<le> length p \<and> py_slice p 0 2 = ''59'' \<and> py_slice p 2 4 \<in> set [''01'', ''03'']")
    case True
    then have "extract_user_id p =
        (case py_int16 (py_slice p 4 6) of
           Inl e \<Rightarrow> Inr None
         | Inr v \<Rightarrow> Inr (if v > 0 then Some v else None))"
      by (simp only: extract_user_id_branches(2))
    with bad show ?thesis by simp
  next
    case False
    show ?thesis
    proof (cases "6 \<le> length p")
      case short: False
      then show ?thesis by (simp add: extract_user_id_short)
    next
      case len: True
      with False have "\<not> (py_slice p 0 2 = ''59'' \<and> py_slice p 2 4 \<in> set [''01'', ''03''])"
        by simp
      with len show ?thesis by (rule extract_user_id_branches(1))
    qed
  qed
next
  show "\<exists>r. extract_user_id p = Inr r" by (rule extract_user_id_total)
next
  show "extract_user_id ''590300000000'' = Inr None" by (simp add: extract_eval)
next
  show "extract_user_id ''590305000000'' = Inr (Some 5)" by (simp add: extract_eval)
qed

theorem extract_user_id_byte2_witness:
  "extract_user_id ''590305000000'' = Inr (Some 5)
   \<and> extract_user_id ''590300000000'' = Inr None
   \<and> extract_user_id ''5901'' = Inr None
   \<and> py_int16 (py_slice ''5901zz000000'' 4 6) = Inl ValueError
   \<and> extract_user_id ''5901zz000000'' = Inr None"
proof -
  have a: "extract_user_id ''590305000000'' = Inr (Some 5)"
    using extract_user_id_byte2 [of "''590305000000''" 0 5]
    by (simp add: py_slice_def hex_digit_value_def)
  have b: "extract_user_id ''590300000000'' = Inr None"
    using extract_user_id_byte2 [of "''590300000000''" 0 0]
    by (simp add: py_slice_def hex_digit_value_def)
  have c: "extract_user_id ''5901'' = Inr None"
    using extract_user_id_byte2 [of "''5901''"] by simp
  have d: "py_int16 (py_slice ''5901zz000000'' 4 6) = Inl ValueError"
    by (simp add: py_slice_def py_int16_def strip_sign_def strip_0x_def py_isspace_def
        hex_digit_value_def)
  have e: "extract_user_id ''5901zz000000'' = Inr None"
    using extract_user_id_byte2 [of "''5901zz000000''" _ _ ValueError] d by simp
  from a b c d e show ?thesis by simp
qed

text \<open>
  The two examples of C4 fail: in \<open>590103000000\<close> and \<open>590103050000\<close> byte 1 is
  \<open>01\<close> and byte 2 is \<open>03\<close>, so the user id is 3 in both.
\<close>

theorem extract_user_id_spec_examples:
  "extract_user_id ''590103000000'' = Inr (Some 3)
   \<and> extract_user_id ''590103050000'' = Inr (Some 3)"
  by (simp add: extract_eval)

subsection \<open>The last-user sensor\<close>

lemmas tracker_eval =
  handle_log_update_def get_newest_valid_log_def latest_logs_def cached_def
  example_manager_def set_latest_logs_def manager_init_def example_entry_def
  get_timestamp_def get_payload_def is_valid_payload_def tracker_init_def

lemma get_newest_valid_log_cached:
  "get_newest_valid_log m t = newest_valid_loop (last_processed_timestamp t) (cached m)"
  by (simp add: get_newest_valid_log_def latest_logs_def)

lemma is_valid_payload_iff: "is_valid_payload p \<longleftrightarrow> 6 \<le> length p \<and> p \<noteq> ''000000000000''"
  by (auto simp: is_valid_payload_def)

lemma newest_valid_loop_find: "newest_valid_loop last_ts logs = find (spec_accepts last_ts) logs"
  by (induction logs) (simp_all add: spec_accepts_def is_valid_payload_iff)

lemma newest_valid_loop_Some:
  "newest_valid_loop last_ts logs = Some e \<Longrightarrow>
     e \<in> set logs \<and> last_ts < get_timestamp e \<and> is_valid_payload (get_payload e)"
  by (induction logs) (auto split: if_splits)

lemma newest_valid_loop_None:
  "\<forall>e \<in> set logs. get_timestamp e \<le> last_ts \<Longrightarrow> newest_valid_loop last_ts logs = None"
  by (induction logs) auto

lemma handle_log_update_cases:
  "(get_newest_valid_log m t = None \<and> handle_log_update m t = t)
   \<or> (\<exists>e. get_newest_valid_log m t = Some e \<and> e \<in> set (cached m)
          \<and> last_processed_timestamp t < get_timestamp e \<and> is_valid_payload (get_payload e)
          \<and> handle_log_update m t = \<lparr>last_processed_timestamp = get_timestamp e, current_log = Some e\<rparr>)"
proof (cases "get_newest_valid_log m t")
  case None
  then show ?thesis by (simp add: handle_log_update_def)
next
  case (Some e)
  then have "e \<in> set (cached m) \<and> last_processed_timestamp t < get_timestamp e \<and> is_valid_payload (get_payload e)"
    using newest_valid_loop_Some [of "last_processed_timestamp t" "cached m" e]
    by (simp add: get_newest_valid_log_cached)
  with Some show ?thesis by (simp add: handle_log_update_def)
qed

lemma handle_log_update_mono:
  "last_processed_timestamp t \<le> last_processed_timestamp (handle_log_update m t)"
  using handle_log_update_cases [of m t] by auto

lemma handle_log_update_keeps_entry:
  "current_log t \<noteq> None \<Longrightarrow> current_log (handle_log_update m t) \<noteq> None"
  using handle_log_update_cases [of m t] by auto

lemma handle_log_update_entry_at_mark:
  assumes "entry_at_mark t"
  shows "entry_at_mark (handle_log_update m t)"
proof (cases "get_newest_valid_log m t")
  case None
  with assms show ?thesis by (simp add: handle_log_update_def)
next
  case (Some e)
  then show ?thesis by (simp add: handle_log_update_def entry_at_mark_def)
qed

lemma run_updates_snoc: "run_updates t (ms @ [m]) = handle_log_update m (run_updates t ms)"
  by (simp add: run_updates_def)

lemma run_updates_mono: "last_processed_timestamp t \<le> last_processed_timestamp (run_updates t ms)"
proof (induction ms rule: rev_induct)
  case Nil
  show ?case by (simp add: run_updates_def)
next
  case (snoc m ms)
  have "last_processed_timestamp (run_updates t ms)
          \<le> last_processed_timestamp (handle_log_update m (run_updates t ms))"
    by (rule handle_log_update_mono)
  with snoc show ?case by (simp add: run_updates_snoc)
qed

lemma run_updates_entry_at_mark: "entry_at_mark t \<Longrightarrow> entry_at_mark (run_updates t ms)"
  by (induction ms rule: rev_induct)
     (simp_all add: run_updates_def handle_log_update_entry_at_mark)

lemma run_updates_keeps_entry: "current_log t \<noteq> None \<Longrightarrow> current_log (run_updates t ms) \<noteq> None"
  by (induction ms rule: rev_induct)
     (simp_all add: run_updates_def handle_log_update_keeps_entry)

text \<open>
  C1. The high-water mark never decreases over any run of update calls; from the
  initial state on, an accepted entry's timestamp is at least the mark; an entry
  once set is never reset to absent; and an update over a batch whose timestamps are
  all at most the mark changes nothing.
\<close>

theorem tracker_monotonic_sticky:
  "last_processed_timestamp t \<le> last_processed_timestamp (run_updates t ms)
   \<and> (\<forall>e. current_log (run_updates tracker_init ms) = Some e
          \<longrightarrow> last_processed_timestamp (run_updates tracker_init ms) \<le> get_timestamp e)
   \<and> (current_log t \<noteq> None \<longrightarrow> current_log (run_updates t ms) \<noteq> None)
   \<and> ((\<forall>e \<in> set (cached m). get_timestamp e \<le> last_processed_timestamp t)
        \<longrightarrow> handle_log_update m t = t)"
proof (intro conjI allI impI)
  show "last_processed_timestamp t \<le> last_processed_timestamp (run_updates t ms)"
    by (rule run_updates_mono)
next
  fix e assume cur: "current_log (run_updates tracker_init ms) = Some e"
  have "entry_at_mark tracker_init" by (simp add: entry_at_mark_def tracker_init_def)
  then have "entry_at_mark (run_updates tracker_init ms)" by (rule run_updates_entry_at_mark)
  with cur show "last_processed_timestamp (run_updates tracker_init ms) \<le> get_timestamp e"
    by (simp add: entry_at_mark_def)
next
  assume "current_log t \<noteq> None"
  then show "current_log (run_updates t ms) \<noteq> None" by (rule run_updates_keeps_entry)
next
  assume "\<forall>e \<in> set (cached m). get_timestamp e \<le> last_processed_timestamp t"
  then have "newest_valid_loop (last_processed_timestamp t) (cached m) = None"
    by (rule newest_valid_loop_None)
  then show "handle_log_update m t = t"
    by (simp add: handle_log_update_def get_newest_valid_log_cached)
qed

theorem tracker_monotonic_sticky_witness:
  "current_log (run_updates tracker_init [example_manager [example_entry 90 ''590302000000'' (Some 2) None]])
     = Some (example_entry 90 ''590302000000'' (Some 2) None)
   \<and> last_processed_timestamp
        (run_updates tracker_init [example_manager [example_entry 90 ''590302000000'' (Some 2) None]])
       \<le> get_timestamp (example_entry 90 ''590302000000'' (Some 2) None)
   \<and> run_updates tracker_init
        [example_manager [example_entry 100 ''590305000000'' (Some 5) (Some ''Alice''),
                          example_entry 90 ''590302000000'' (Some 2) None]]
       = \<lparr>last_processed_timestamp = 100,
          current_log = Some (example_entry 100 ''590305000000'' (Some 5) (Some ''Alice''))\<rparr>
   \<and> get_timestamp (example_entry 90 ''590302000000'' (Some 2) None) \<le> 100
   \<and> handle_log_update (example_manager [example_entry 90 ''590302000000'' (Some 2) None])
        \<lparr>last_processed_timestamp = 100,
         current_log = Some (example_entry 100 ''590305000000'' (Some 5) (Some ''Alice''))\<rparr>
       = \<lparr>last_processed_timestamp = 100,
          current_log = Some (example_entry 100 ''590305000000'' (Some 5) (Some ''Alice''))\<rparr>
   \<and> current_log (run_updates
          \<lparr>last_processed_timestamp = 100,
           current_log = Some (example_entry 100 ''590305000000'' (Some 5) (Some ''Alice''))\<rparr>
          [example_manager [example_entry 90 ''590302000000'' (Some 2) None]]) \<noteq> None"
  using tracker_monotonic_sticky
    [of "\<lparr>last_processed_timestamp = 100,
           current_log = Some (example_entry 100 ''590305000000'' (Some 5) (Some ''Alice''))\<rparr>"
        "[example_manager [example_entry 90 ''590302000000'' (Some 2) None]]"
        "example_manager [example_entry 90 ''590302000000'' (Some 2) None]"]
  by (simp add: run_updates_def tracker_eval)

text \<open>
  C2. The selection is the first entry, in the order given, that is strictly newer
  than the mark and whose payload has at least six characters and is not twelve
  zeros; an entry with the all-zero payload is never selected.
\<close>

theorem selection_first_match:
  "get_newest_valid_log m t = spec_selection (last_processed_timestamp t) (cached m)
   \<and> (\<forall>e. get_newest_valid_log m t = Some e \<longrightarrow> get_payload e \<noteq> ''000000000000'')"
proof (intro conjI allI impI)
  show "get_newest_valid_log m t = spec_selection (last_processed_timestamp t) (cached m)"
    by (simp add: get_newest_valid_log_cached newest_valid_loop_find spec_selection_def)
next
  fix e assume "get_newest_valid_log m t = Some e"
  then have "is_valid_payload (get_payload e)"
    using newest_valid_loop_Some [of "last_processed_timestamp t" "cached m" e]
    by (simp add: get_newest_valid_log_cached)
  then show "get_payload e \<noteq> ''000000000000''" by (simp add: is_valid_payload_iff)
qed


theorem selection_first_match_witness:
  "get_newest_valid_log
     (example_manager [example_entry 200 ''000000000000'' None None,
                       example_entry 100 ''590305000000'' (Some 5) None,
                       example_entry 150 ''590302000000'' (Some 2) None])
     tracker_init
   = Some (example_entry 100 ''590305000000'' (Some 5) None)
   \<and> get_payload (example_entry 100 ''590305000000'' (Some 5) None) \<noteq> ''000000000000''"
  using selection_first_match
    [of "example_manager [example_entry 200 ''000000000000'' None None,
                          example_entry 100 ''590305000000'' (Some 5) None,
                          example_entry 150 ''590302000000'' (Some 2) None]"
        tracker_init]
  by (simp add: tracker_eval spec_selection_def spec_accepts_def)

subsection \<open>Enrichment\<close>

lemma source_display_of_eq:
  "source_display_of S log =
     Inr (case source log of
            None \<Rightarrow> ''Unknown (Source ?)''
          | Some c \<Rightarrow> (case S c of
                        None \<Rightarrow> ''Unknown (Source '' @ py_str c @ '')''
                      | Some member_name \<Rightarrow> py_title (replace_underscores member_name)))"
  by (simp add: source_display_of_def try_except_def getitem_def enum_call_def
      format_or_question_def split: option.splits)

lemma action_name_of_eq:
  "action_name_of A log =
     Inr (case action log of
            None \<Rightarrow> ''unknown_?''
          | Some c \<Rightarrow> (case A c of
                        None \<Rightarrow> ''unknown_'' @ py_str c
                      | Some member_name \<Rightarrow> py_lower member_name))"
  by (simp add: action_name_of_def try_except_def getitem_def enum_call_def
      format_or_question_def split: option.splits)

text \<open>One pass of the loop body returns an enriched log, whatever the raw log is.\<close>

lemma enrich_log_result:
  "\<exists>e. enrich_log users S A log = Inr e
       \<and> timestamp e = timestamp log \<and> source e = source log \<and> action e = action log
       \<and> payload e = payload log
       \<and> extract_user_id (get_payload log) = Inr (user_id e)
       \<and> user_name e = user_name_of users (user_id e)
       \<and> source_display_of S log = Inr (source_display e)
       \<and> action_name_of A log = Inr (action_name e)"
proof -
  obtain uid where "extract_user_id (get_payload log) = Inr uid"
    using extract_user_id_total by blast
  then show ?thesis
    by (simp add: enrich_log_def source_display_of_eq action_name_of_eq)
qed

text \<open>
  The loop appends one enriched log per raw log, in order: the result is the
  accumulator followed by a list that matches the input position by position.
\<close>

lemma enrich_loop_result:
  "\<exists>out. enrich_loop users S A logs acc = Inr (acc @ out)
         \<and> list_all2 (\<lambda>log e. enrich_log users S A log = Inr e) logs out"
proof (induction logs arbitrary: acc)
  case Nil
  show ?case by simp
next
  case (Cons log logs)
  obtain e where e: "enrich_log users S A log = Inr e"
    using enrich_log_result by blast
  obtain out where out: "enrich_loop users S A logs (acc @ [e]) = Inr ((acc @ [e]) @ out)"
    and all: "list_all2 (\<lambda>log e. enrich_log users S A log = Inr e) logs out"
    using Cons.IH by blast
  have "enrich_loop users S A (log # logs) acc = Inr (acc @ (e # out))"
    using e out by simp
  moreover have "list_all2 (\<lambda>log e. enrich_log users S A log = Inr e) (log # logs) (e # out)"
    using e all by simp
  ultimately show ?case by blast
qed

lemma enrich_logs_result:
  "\<exists>out. enrich_logs st lock S A logs = Inr out \<and> length out = length logs
         \<and> (\<forall>i < length logs. enrich_log (async_get_users st lock) S A (logs ! i) = Inr (out ! i))"
proof -
  obtain out where "enrich_loop (async_get_users st lock) S A logs [] = Inr ([] @ out)"
    and "list_all2 (\<lambda>log e. enrich_log (async_get_users st lock) S A log = Inr e) logs out"
    using enrich_loop_result by blast
  then show ?thesis
    by (auto simp: enrich_logs_def list_all2_conv_all_nth)
qed

lemma user_name_of_present:
  "user_name_of users uid \<noteq> None \<longleftrightarrow> (\<exists>u. uid = Some u \<and> py_str u \<in> dom users)"
  by (cases uid) (auto simp: user_name_of_def)

lemma user_name_of_Some: "user_name_of users (Some u) = users (py_str u)"
  by (simp add: user_name_of_def)

text \<open>
  C6. Enrichment returns as many logs as it was given, in the same order: log
  \<open>i\<close> of the result is the enrichment of raw log \<open>i\<close> and carries its four raw
  fields. Its user name is present exactly when its user id is present and the string
  form of the id is a key of the lock's name mapping, and is then the mapped name;
  otherwise it is \<open>None\<close>.
\<close>

theorem enrich_logs_order_and_names:
  "\<exists>out. enrich_logs st lock S A logs = Inr out \<and> length out = length logs
     \<and> (\<forall>i < length logs.
           enrich_log (async_get_users st lock) S A (logs ! i) = Inr (out ! i)
         \<and> timestamp (out ! i) = timestamp (logs ! i) \<and> source (out ! i) = source (logs ! i)
         \<and> action (out ! i) = action (logs ! i) \<and> payload (out ! i) = payload (logs ! i)
         \<and> extract_user_id (get_payload (logs ! i)) = Inr (user_id (out ! i))
         \<and> (user_name (out ! i) \<noteq> None
              \<longleftrightarrow> (\<exists>u. user_id (out ! i) = Some u \<and> py_str u \<in> dom (async_get_users st lock)))
         \<and> (\<forall>u. user_id (out ! i) = Some u
                \<longrightarrow> user_name (out ! i) = async_get_users st lock (py_str u)))"
proof -
  obtain out where res: "enrich_logs st lock S A logs = Inr out" and len: "length out = length logs"
    and nth: "\<forall>i < length logs. enrich_log (async_get_users st lock) S A (logs ! i) = Inr (out ! i)"
    using enrich_logs_result by blast
  have "enrich_log (async_get_users st lock) S A (logs ! i) = Inr (out ! i)
         \<and> timestamp (out ! i) = timestamp (logs ! i) \<and> source (out ! i) = source (logs ! i)
         \<and> action (out ! i) = action (logs ! i) \<and> payload (out ! i) = payload (logs ! i)
         \<and> extract_user_id (get_payload (logs ! i)) = Inr (user_id (out ! i))
         \<and> (user_name (out ! i) \<noteq> None
              \<longleftrightarrow> (\<exists>u. user_id (out ! i) = Some u \<and> py_str u \<in> dom (async_get_users st lock)))
         \<and> (\<forall>u. user_id (out ! i) = Some u
                \<longrightarrow> user_name (out ! i) = async_get_users st lock (py_str u))"
    if i: "i < length logs" for i
  proof -
    from nth i have eq: "enrich_log (async_get_users st lock) S A (logs ! i) = Inr (out ! i)"
      by simp
    obtain e where e: "enrich_log (async_get_users st lock) S A (logs ! i) = Inr e"
      and raw: "timestamp e = timestamp (logs ! i)" "source e = source (logs ! i)"
        "action e = action (logs ! i)" "payload e = payload (logs ! i)"
      and uid: "extract_user_id (get_payload (logs ! i)) = Inr (user_id e)"
      and un: "user_name e = user_name_of (async_get_users st lock) (user_id e)"
      using enrich_log_result [of "async_get_users st lock" S A "logs ! i"] by blast
    from e eq have same: "out ! i = e" by simp
    have present: "user_name e \<noteq> None
        \<longleftrightarrow> (\<exists>u. user_id e = Some u \<and> py_str u \<in> dom (async_get_users st lock))"
      unfolding un by (rule user_name_of_present)
    have mapped: "\<forall>u. user_id e = Some u \<longrightarrow> user_name e = async_get_users st lock (py_str u)"
      by (simp add: un user_name_of_Some)
    from eq raw uid present mapped show ?thesis
      unfolding same by (intro conjI)
  qed
  with res len show ?thesis by blast
qed

lemmas enrich_eval =
  enrich_logs_def enrich_log_def source_display_of_def action_name_of_def user_name_of_def
  try_except_def getitem_def enum_call_def format_or_question_def
  async_get_users_def async_get_lock_data_def new_lock_data_def
  get_payload_def example_raw_def example_enum_def

theorem enrich_logs_order_and_names_witness:
  "enrich_logs
     \<lparr>store_data = [''AA:BB'' \<mapsto> \<lparr>lock_name = None, lock_users = Some [''5'' \<mapsto> ''Alice'']\<rparr>],
      store_file = None\<rparr>
     ''AA:BB'' example_enum example_enum
     [example_raw 100 ''590305000000'', example_raw 90 ''590302000000'']
   = Inr [\<lparr>timestamp = Some 100, source = Some 1, action = Some 1, payload = Some ''590305000000'',
           user_id = Some 5, user_name = Some ''Alice'',
           source_display = ''Manual'', action_name = ''manual''\<rparr>,
          \<lparr>timestamp = Some 90, source = Some 1, action = Some 1, payload = Some ''590302000000'',
           user_id = Some 2, user_name = None,
           source_display = ''Manual'', action_name = ''manual''\<rparr>]"
proof -
  let ?st = "\<lparr>store_data = [''AA:BB'' \<mapsto> \<lparr>lock_name = None, lock_users = Some [''5'' \<mapsto> ''Alice'']\<rparr>],
             store_file = None\<rparr>"
  let ?logs = "[example_raw 100 ''590305000000'', example_raw 90 ''590302000000'']"
  have ids: "extract_user_id ''590305000000'' = Inr (Some 5)"
    "extract_user_id ''590302000000'' = Inr (Some 2)"
    by (simp_all add: extract_eval)
  have strs: "py_str 5 = ''5''" "py_str 2 = ''2''"
    by code_simp+
  have labels: "py_title (replace_underscores ''MANUAL'') = ''Manual''" "py_lower ''MANUAL'' = ''manual''"
    by code_simp+
  have ev: "enrich_logs ?st ''AA:BB'' example_enum example_enum ?logs
      = Inr [\<lparr>timestamp = Some 100, source = Some 1, action = Some 1, payload = Some ''590305000000'',
           user_id = Some 5, user_name = Some ''Alice'',
           source_display = ''Manual'', action_name = ''manual''\<rparr>,
          \<lparr>timestamp = Some 90, source = Some 1, action = Some 1, payload = Some ''590302000000'',
           user_id = Some 2, user_name = None,
           source_display = ''Manual'', action_name = ''manual''\<rparr>]"
    by (simp add: enrich_eval ids strs labels)
  obtain out where "enrich_logs ?st ''AA:BB'' example_enum example_enum ?logs = Inr out"
    and "length out = length ?logs"
    using enrich_logs_order_and_names [of ?st "''AA:BB''" example_enum example_enum ?logs]
    by blast
  with ev show ?thesis by simp
qed

text \<open>
  C8. Enrichment never raises. A source code that is no member of
  \<open>LockLogSource\<close> gives the label \<open>Unknown (Source N)\<close>, an action code that is
  no member of \<open>LockLogAction\<close> gives \<open>unknown_N\<close>, with \<open>N\<close> the decimal form
  of the code; a missing key gives the same label with \<open>?\<close> in place of the code.
\<close>

theorem enrich_logs_unknown_codes:
  "\<exists>out. enrich_logs st lock S A logs = Inr out \<and> length out = length logs
     \<and> (\<forall>i < length logs.
           (\<forall>c. source (logs ! i) = Some c \<and> S c = None
               \<longrightarrow> source_display (out ! i) = ''Unknown (Source '' @ py_str c @ '')''
                 \<and> sublist (py_str c) (source_display (out ! i)))
         \<and> (\<forall>c. action (logs ! i) = Some c \<and> A c = None
               \<longrightarrow> action_name (out ! i) = ''unknown_'' @ py_str c
                 \<and> sublist (py_str c) (action_name (out ! i)))
         \<and> (source (logs ! i) = None \<longrightarrow> source_display (out ! i) = ''Unknown (Source ?)'')
         \<and> (action (logs ! i) = None \<longrightarrow> action_name (out ! i) = ''unknown_?''))"
proof -
  obtain out where res: "enrich_logs st lock S A logs = Inr out" and len: "length out = length logs"
    and nth: "\<forall>i < length logs. enrich_log (async_get_users st lock) S A (logs ! i) = Inr (out ! i)"
    using enrich_logs_result by blast
  have "(\<forall>c. source (logs ! i) = Some c \<and> S c = None
               \<longrightarrow> source_display (out ! i) = ''Unknown (Source '' @ py_str c @ '')''
                 \<and> sublist (py_str c) (source_display (out ! i)))
         \<and> (\<forall>c. action (logs ! i) = Some c \<and> A c = None
               \<longrightarrow> action_name (out ! i) = ''unknown_'' @ py_str c
                 \<and> sublist (py_str c) (action_name (out ! i)))
         \<and> (source (logs ! i) = None \<longrightarrow> source_display (out ! i) = ''Unknown (Source ?)'')
         \<and> (action (logs ! i) = None \<longrightarrow> action_name (out ! i) = ''unknown_?'')"
    if i: "i < length logs" for i
  proof -
    from nth i have eq: "enrich_log (async_get_users st lock) S A (logs ! i) = Inr (out ! i)"
      by simp
    obtain e where e: "enrich_log (async_get_users st lock) S A (logs ! i) = Inr e"
      and sd: "source_display_of S (logs ! i) = Inr (source_display e)"
      and an: "action_name_of A (logs ! i) = Inr (action_name e)"
      using enrich_log_result [of "async_get_users st lock" S A "logs ! i"] by blast
    from e eq have same: "out ! i = e" by simp
    have s1: "source_display e = ''Unknown (Source '' @ py_str c @ '')''
        \<and> sublist (py_str c) (source_display e)"
      if "source (logs ! i) = Some c \<and> S c = None" for c
    proof -
      from that sd have lbl: "source_display e = ''Unknown (Source '' @ py_str c @ '')''"
        by (simp add: source_display_of_eq)
      have "sublist (py_str c) (''Unknown (Source '' @ py_str c @ '')'')"
        by (rule sublist_appendI)
      with lbl show ?thesis by simp
    qed
    have a1: "action_name e = ''unknown_'' @ py_str c \<and> sublist (py_str c) (action_name e)"
      if "action (logs ! i) = Some c \<and> A c = None" for c
    proof -
      from that an have lbl: "action_name e = ''unknown_'' @ py_str c"
        by (simp add: action_name_of_eq)
      have "sublist (py_str c) (''unknown_'' @ py_str c @ [])"
        by (rule sublist_appendI)
      with lbl show ?thesis by simp
    qed
    have s2: "source (logs ! i) = None \<longrightarrow> source_display e = ''Unknown (Source ?)''"
      using sd by (auto simp: source_display_of_eq)
    have a2: "action (logs ! i) = None \<longrightarrow> action_name e = ''unknown_?''"
      using an by (auto simp: action_name_of_eq)
    from s1 a1 s2 a2 show ?thesis unfolding same by blast
  qed
  with res len show ?thesis by blast
qed

theorem enrich_logs_unknown_codes_witness:
  "enrich_logs user_store_init ''AA:BB'' example_enum example_enum
     [\<lparr>timestamp = Some 100, source = Some 7, action = Some 250, payload = Some ''590305000000''\<rparr>,
      \<lparr>timestamp = Some 90, source = None, action = None, payload = None\<rparr>]
   = Inr [\<lparr>timestamp = Some 100, source = Some 7, action = Some 250, payload = Some ''590305000000'',
           user_id = Some 5, user_name = None,
           source_display = ''Unknown (Source 7)'', action_name = ''unknown_250''\<rparr>,
          \<lparr>timestamp = Some 90, source = None, action = None, payload = None,
           user_id = None, user_name = None,
           source_display = ''Unknown (Source ?)'', action_name = ''unknown_?''\<rparr>]
   \<and> example_enum 7 = None \<and> example_enum 250 = None
   \<and> sublist (py_str 7) ''Unknown (Source 7)'' \<and> sublist (py_str 250) ''unknown_250''"
proof -
  let ?logs = "[\<lparr>timestamp = Some 100, source = Some 7, action = Some 250, payload = Some ''590305000000''\<rparr>,
                \<lparr>timestamp = Some 90, source = None, action = None, payload = None\<rparr>]"
  have ids: "extract_user_id ''590305000000'' = Inr (Some 5)" "extract_user_id [] = Inr None"
    by (simp_all add: extract_eval)
  have strs: "py_str 7 = ''7''" "py_str 250 = ''250''" "py_str 5 = ''5''"
    by code_simp+
  have ev: "enrich_logs user_store_init ''AA:BB'' example_enum example_enum ?logs
      = Inr [\<lparr>timestamp = Some 100, source = Some 7, action = Some 250, payload = Some ''590305000000'',
           user_id = Some 5, user_name = None,
           source_display = ''Unknown (Source 7)'', action_name = ''unknown_250''\<rparr>,
          \<lparr>timestamp = Some 90, source = None, action = None, payload = None,
           user_id = None, user_name = None,
           source_display = ''Unknown (Source ?)'', action_name = ''unknown_?''\<rparr>]"
    by (simp add: enrich_eval ids strs user_store_init_def)
  have unknown: "example_enum 7 = None" "example_enum 250 = None"
    by (simp_all add: example_enum_def)
  have sub: "sublist (py_str 7) (''Unknown (Source '' @ py_str 7 @ '')'')"
    "sublist (py_str 250) (''unknown_'' @ py_str 250 @ [])"
    by (rule sublist_appendI)+
  obtain out where "enrich_logs user_store_init ''AA:BB'' example_enum example_enum ?logs = Inr out"
    and "length out = length ?logs"
    using enrich_logs_unknown_codes [of user_store_init "''AA:BB''" example_enum example_enum ?logs]
    by blast
  with ev unknown sub show ?thesis by (simp add: strs)
qed

subsection \<open>User name storage\<close>

text \<open>What \<open>async_set_user\<close> does, by the state of the lock's entry.\<close>

lemma async_set_user_new_lock:
  "store_data st lock = None \<Longrightarrow>
     async_set_user st lock uid n =
       (Inr (), \<lparr>store_data = (store_data st)(lock \<mapsto> \<lparr>lock_name = None, lock_users = Some [py_str uid \<mapsto> n]\<rparr>),
                store_file = Some ((store_data st)(lock \<mapsto> \<lparr>lock_name = None, lock_users = Some [py_str uid \<mapsto> n]\<rparr>))\<rparr>)"
  by (simp add: async_set_user_def async_save_def new_lock_data_def)

lemma async_set_user_known_lock:
  "store_data st lock = Some d \<Longrightarrow> lock_users d = Some us \<Longrightarrow>
     async_set_user st lock uid n =
       (Inr (), \<lparr>store_data = (store_data st)(lock \<mapsto> d\<lparr>lock_users := Some (us(py_str uid \<mapsto> n))\<rparr>),
                store_file = Some ((store_data st)(lock \<mapsto> d\<lparr>lock_users := Some (us(py_str uid \<mapsto> n))\<rparr>))\<rparr>)"
  by (simp add: async_set_user_def async_save_def)

lemma async_set_user_no_users_key:
  "store_data st lock = Some d \<Longrightarrow> lock_users d = None \<Longrightarrow>
     async_set_user st lock uid n = (Inl KeyError, st)"
  by (simp add: async_set_user_def)

lemma async_set_user_get_users:
  assumes "async_set_user st lock uid n = (Inr (), st1)"
  shows "async_get_users st1 lock = (async_get_users st lock)(py_str uid \<mapsto> n)"
proof (cases "store_data st lock")
  case None
  with assms show ?thesis
    by (auto simp: async_set_user_new_lock async_get_users_def async_get_lock_data_def
        new_lock_data_def)
next
  case (Some d)
  show ?thesis
  proof (cases "lock_users d")
    case None
    with Some assms show ?thesis by (simp add: async_set_user_no_users_key)
  next
    case us: (Some us)
    with Some assms show ?thesis
      by (auto simp: async_set_user_known_lock async_get_users_def async_get_lock_data_def)
  qed
qed

lemma async_set_user_twice:
  assumes "async_set_user st lock uid n = (r, st1)"
  shows "async_set_user st1 lock uid n = (r, st1)"
proof (cases "store_data st lock")
  case None
  with assms show ?thesis
    by (auto simp: async_set_user_new_lock async_set_user_known_lock)
next
  case (Some d)
  show ?thesis
  proof (cases "lock_users d")
    case None
    with Some assms show ?thesis by (auto simp: async_set_user_no_users_key)
  next
    case us: (Some us)
    with Some assms show ?thesis
      by (auto simp: async_set_user_known_lock)
  qed
qed

lemma async_delete_user_known_lock:
  "store_data st lock = Some d \<Longrightarrow> lock_users d = Some us \<Longrightarrow>
     async_delete_user st lock uid =
       \<lparr>store_data = (store_data st)(lock \<mapsto> d\<lparr>lock_users := Some (us(py_str uid := None))\<rparr>),
        store_file = Some ((store_data st)(lock \<mapsto> d\<lparr>lock_users := Some (us(py_str uid := None))\<rparr>))\<rparr>"
  by (simp add: async_delete_user_def async_save_def)

lemma async_delete_user_get_users:
  "async_get_users (async_delete_user st lock uid) lock = (async_get_users st lock)(py_str uid := None)"
proof (cases "store_data st lock")
  case None
  then show ?thesis
    by (simp add: async_delete_user_def async_get_users_def async_get_lock_data_def new_lock_data_def)
next
  case (Some d)
  show ?thesis
  proof (cases "lock_users d")
    case None
    with Some show ?thesis
      by (simp add: async_delete_user_def async_get_users_def async_get_lock_data_def)
  next
    case us: (Some us)
    with Some show ?thesis
      by (simp add: async_delete_user_known_lock async_get_users_def async_get_lock_data_def)
  qed
qed

lemma async_delete_user_twice:
  "async_delete_user (async_delete_user st lock uid) lock uid = async_delete_user st lock uid"
proof (cases "store_data st lock")
  case None
  then show ?thesis by (simp add: async_delete_user_def)
next
  case (Some d)
  show ?thesis
  proof (cases "lock_users d")
    case None
    with Some show ?thesis by (simp add: async_delete_user_def)
  next
    case us: (Some us)
    with Some show ?thesis by (simp add: async_delete_user_known_lock)
  qed
qed

lemma async_delete_user_absent:
  assumes "async_get_users st lock (py_str uid) = None"
  shows "store_data (async_delete_user st lock uid) = store_data st"
proof (cases "store_data st lock")
  case None
  then show ?thesis by (simp add: async_delete_user_def)
next
  case (Some d)
  show ?thesis
  proof (cases "lock_users d")
    case None
    with Some show ?thesis by (simp add: async_delete_user_def)
  next
    case us: (Some us)
    with Some assms have "us (py_str uid) = None"
      by (simp add: async_get_users_def async_get_lock_data_def)
    then have "us(py_str uid := None) = us" by (rule fun_upd_idem)
    with us have "d\<lparr>lock_users := Some (us(py_str uid := None))\<rparr> = d" by simp
    with Some us show ?thesis
      by (simp add: async_delete_user_known_lock map_upd_triv)
  qed
qed

text \<open>
  C9. A successful \<open>set_user\<close> on a lock with no mapped users leaves exactly the one
  mapping, and deleting that user leaves none; \<open>set_user\<close> succeeds whenever the
  lock has no entry yet or its entry has the \<open>"users"\<close> key. Repeating a
  \<open>set_user\<close> call gives the same outcome and the same store as the first call;
  repeating a \<open>delete_user\<close> call changes nothing more; and deleting a user that is
  not mapped leaves the table as it was. \<open>delete_user\<close> has no failing outcome.
\<close>

theorem user_store_round_trip:
  "(async_get_users st lock = Map.empty \<and> async_set_user st lock uid n = (Inr (), st1)
      \<longrightarrow> async_get_users st1 lock = [py_str uid \<mapsto> n]
        \<and> async_get_users (async_delete_user st1 lock uid) lock = Map.empty)
   \<and> (async_set_user st lock uid n = (r, st2) \<longrightarrow> async_set_user st2 lock uid n = (r, st2))
   \<and> async_delete_user (async_delete_user st lock uid) lock uid = async_delete_user st lock uid
   \<and> (async_get_users st lock (py_str uid) = None
        \<longrightarrow> store_data (async_delete_user st lock uid) = store_data st)
   \<and> ((\<forall>d. store_data st lock = Some d \<longrightarrow> lock_users d \<noteq> None)
        \<longrightarrow> (\<exists>st3. async_set_user st lock uid n = (Inr (), st3)))"
proof (intro conjI impI)
  assume h: "async_get_users st lock = Map.empty \<and> async_set_user st lock uid n = (Inr (), st1)"
  then have e: "async_get_users st lock = Map.empty"
    and s: "async_set_user st lock uid n = (Inr (), st1)" by simp_all
  from async_set_user_get_users [OF s] e have got: "async_get_users st1 lock = [py_str uid \<mapsto> n]"
    by simp
  then show "async_get_users st1 lock = [py_str uid \<mapsto> n]" .
  from got show "async_get_users (async_delete_user st1 lock uid) lock = Map.empty"
    by (simp add: async_delete_user_get_users)
next
  assume "async_set_user st lock uid n = (r, st2)"
  then show "async_set_user st2 lock uid n = (r, st2)" by (rule async_set_user_twice)
next
  show "async_delete_user (async_delete_user st lock uid) lock uid = async_delete_user st lock uid"
    by (rule async_delete_user_twice)
next
  assume "async_get_users st lock (py_str uid) = None"
  then show "store_data (async_delete_user st lock uid) = store_data st"
    by (rule async_delete_user_absent)
next
  assume key: "\<forall>d. store_data st lock = Some d \<longrightarrow> lock_users d \<noteq> None"
  show "\<exists>st3. async_set_user st lock uid n = (Inr (), st3)"
  proof (cases "store_data st lock")
    case None
    then show ?thesis by (simp add: async_set_user_new_lock)
  next
    case (Some d)
    with key obtain us where "lock_users d = Some us" by auto
    with Some show ?thesis by (simp add: async_set_user_known_lock)
  qed
qed

theorem user_store_round_trip_witness:
  "async_get_users user_store_init ''AA:BB'' = Map.empty
   \<and> (\<exists>st1. async_set_user user_store_init ''AA:BB'' 5 ''Alice'' = (Inr (), st1)
          \<and> async_get_users st1 ''AA:BB'' = [''5'' \<mapsto> ''Alice'']
          \<and> async_get_users (async_delete_user st1 ''AA:BB'' 5) ''AA:BB'' = Map.empty
          \<and> async_set_user st1 ''AA:BB'' 5 ''Alice'' = (Inr (), st1))
   \<and> async_get_users user_store_init ''AA:BB'' (py_str 5) = None
   \<and> store_data (async_delete_user user_store_init ''AA:BB'' 5) = store_data user_store_init"
proof -
  have five: "py_str 5 = ''5''" by code_simp
  have empty: "async_get_users user_store_init ''AA:BB'' = Map.empty"
    by (simp add: async_get_users_def async_get_lock_data_def user_store_init_def new_lock_data_def)
  obtain st1 where set: "async_set_user user_store_init ''AA:BB'' 5 ''Alice'' = (Inr (), st1)"
    by (simp add: async_set_user_new_lock user_store_init_def)
  have absent: "async_get_users user_store_init ''AA:BB'' (py_str 5) = None"
    by (simp add: empty)
  from user_store_round_trip [of user_store_init "''AA:BB''" 5 "''Alice''" st1 "Inr ()" st1] empty set absent
  have "async_get_users st1 ''AA:BB'' = [''5'' \<mapsto> ''Alice'']
      \<and> async_get_users (async_delete_user st1 ''AA:BB'' 5) ''AA:BB'' = Map.empty
      \<and> async_set_user st1 ''AA:BB'' 5 ''Alice'' = (Inr (), st1)
      \<and> store_data (async_delete_user user_store_init ''AA:BB'' 5) = store_data user_store_init"
    by (simp add: five)
  with empty set absent show ?thesis by blast
qed

subsection \<open>The manager\<close>

lemma cached_set_latest_logs: "cached (set_latest_logs enriched m) = enriched"
  by (simp add: cached_def set_latest_logs_def)

lemma cached_notify_listeners: "cached (notify_listeners m) = cached m"
  by (simp add: cached_def notify_listeners_def)

lemma listeners_set_latest_logs: "listeners (set_latest_logs enriched m) = listeners m"
  by (simp add: set_latest_logs_def)

text \<open>The reference \<open>self._latest_logs\<close> is bound from creation on.\<close>

lemma manager_ok_kept:
  "manager_ok (manager_init lock)"
  "manager_ok m \<Longrightarrow> manager_ok (snd (latest_logs m))"
  "manager_ok m \<Longrightarrow> manager_ok (async_add_listener l m)"
  "manager_ok m \<Longrightarrow> manager_ok (snd (async_fetch_logs st S A get_logs base_time max_entries m))"
  by (auto simp: manager_ok_def manager_init_def latest_logs_def async_add_listener_def
      async_fetch_logs_def notify_listeners_def set_latest_logs_def
      split: sum.splits option.splits)

lemma async_fetch_logs_success:
  assumes "get_logs base_time max_entries = Inr (Some logs)" and "logs \<noteq> []"
    and "enrich_logs st (mgr_mac m) S A logs = Inr enriched"
  shows "async_fetch_logs st S A get_logs base_time max_entries m
           = (Inr enriched, notify_listeners (set_latest_logs enriched m))"
  using assms by (simp add: async_fetch_logs_def)

text \<open>
  C5. When the device fetch raises, \<open>async_fetch_logs\<close> raises the same exception
  and the manager is unchanged; when it returns \<open>None\<close> or no records, the result is
  the empty list and the manager is unchanged. Whenever the manager changes at all
  (cache, listeners or state writes), the device returned a non-empty batch, its
  enrichment is non-empty, is the result and is the new cache, and every listener was
  called once.
\<close>

theorem fetch_failure_or_empty_is_noop:
  "(get_logs base_time max_entries = Inl err
      \<longrightarrow> async_fetch_logs st S A get_logs base_time max_entries m = (Inl err, m))
   \<and> (get_logs base_time max_entries = Inr None \<or> get_logs base_time max_entries = Inr (Some [])
      \<longrightarrow> async_fetch_logs st S A get_logs base_time max_entries m = (Inr [], m))
   \<and> (async_fetch_logs st S A get_logs base_time max_entries m = (r, m') \<and> m' \<noteq> m
      \<longrightarrow> (\<exists>logs enriched.
             get_logs base_time max_entries = Inr (Some logs) \<and> logs \<noteq> []
           \<and> enrich_logs st (mgr_mac m) S A logs = Inr enriched \<and> enriched \<noteq> []
           \<and> r = Inr enriched \<and> cached m' = enriched
           \<and> m' = notify_listeners (set_latest_logs enriched m)
           \<and> ha_state_writes m' = ha_state_writes m + length (listeners m)))"
proof (intro conjI impI)
  assume "get_logs base_time max_entries = Inl err"
  then show "async_fetch_logs st S A get_logs base_time max_entries m = (Inl err, m)"
    by (simp add: async_fetch_logs_def)
next
  assume "get_logs base_time max_entries = Inr None \<or> get_logs base_time max_entries = Inr (Some [])"
  then show "async_fetch_logs st S A get_logs base_time max_entries m = (Inr [], m)"
    by (auto simp: async_fetch_logs_def)
next
  assume h: "async_fetch_logs st S A get_logs base_time max_entries m = (r, m') \<and> m' \<noteq> m"
  then have res: "async_fetch_logs st S A get_logs base_time max_entries m = (r, m')"
    and changed: "m' \<noteq> m" by simp_all
  show "\<exists>logs enriched.
             get_logs base_time max_entries = Inr (Some logs) \<and> logs \<noteq> []
           \<and> enrich_logs st (mgr_mac m) S A logs = Inr enriched \<and> enriched \<noteq> []
           \<and> r = Inr enriched \<and> cached m' = enriched
           \<and> m' = notify_listeners (set_latest_logs enriched m)
           \<and> ha_state_writes m' = ha_state_writes m + length (listeners m)"
  proof (cases "get_logs base_time max_entries")
    case (Inl err)
    with res changed show ?thesis by (simp add: async_fetch_logs_def)
  next
    case (Inr got)
    show ?thesis
    proof (cases got)
      case None
      with Inr res changed show ?thesis by (simp add: async_fetch_logs_def)
    next
      case (Some logs)
      show ?thesis
      proof (cases "logs = []")
        case True
        with Inr Some res changed show ?thesis by (simp add: async_fetch_logs_def)
      next
        case False
        obtain enriched where en: "enrich_logs st (mgr_mac m) S A logs = Inr enriched"
          and len: "length enriched = length logs"
          using enrich_logs_result by blast
        from len False have ne: "enriched \<noteq> []" by auto
        from Inr Some have dev: "get_logs base_time max_entries = Inr (Some logs)" by simp
        from async_fetch_logs_success
          [of get_logs base_time max_entries logs st m S A enriched, OF dev False en] res
        have r: "r = Inr enriched" and m': "m' = notify_listeners (set_latest_logs enriched m)"
          by simp_all
        have c: "cached m' = enriched"
          by (simp add: m' cached_notify_listeners cached_set_latest_logs)
        have w: "ha_state_writes m' = ha_state_writes m + length (listeners m)"
          by (simp add: m' notify_listeners_def set_latest_logs_def)
        from dev False en ne r c m' w show ?thesis by blast
      qed
    qed
  qed
qed

theorem fetch_failure_or_empty_is_noop_witness:
  "async_fetch_logs user_store_init example_enum example_enum (\<lambda>b n. Inl TransportError) 0 10
     (async_add_listener (LastUserSensor tracker_init) (manager_init ''AA:BB''))
   = (Inl TransportError, async_add_listener (LastUserSensor tracker_init) (manager_init ''AA:BB''))
   \<and> async_fetch_logs user_store_init example_enum example_enum (\<lambda>b n. Inr (Some [])) 0 10
        (async_add_listener (LastUserSensor tracker_init) (manager_init ''AA:BB''))
     = (Inr [], async_add_listener (LastUserSensor tracker_init) (manager_init ''AA:BB''))
   \<and> (\<exists>e m'. async_fetch_logs user_store_init example_enum example_enum
                 (\<lambda>b n. Inr (Some [example_raw 100 ''590305000000''])) 0 10
                 (async_add_listener (LastUserSensor tracker_init) (manager_init ''AA:BB''))
               = (Inr [e], m')
             \<and> m' \<noteq> async_add_listener (LastUserSensor tracker_init) (manager_init ''AA:BB'')
             \<and> cached m' = [e] \<and> ha_state_writes m' = 1)"
proof -
  let ?m = "async_add_listener (LastUserSensor tracker_init) (manager_init ''AA:BB'')"
  let ?ok = "\<lambda>(b :: int) (n :: int). (Inr (Some [example_raw 100 ''590305000000'']) :: py_error + raw_log list option)"
  have a: "async_fetch_logs user_store_init example_enum example_enum (\<lambda>b n. Inl TransportError) 0 10 ?m
      = (Inl TransportError, ?m)"
    using fetch_failure_or_empty_is_noop
      [of "\<lambda>b n. Inl TransportError" 0 10 TransportError user_store_init example_enum example_enum ?m]
    by simp
  have b: "async_fetch_logs user_store_init example_enum example_enum (\<lambda>b n. Inr (Some [])) 0 10 ?m
      = (Inr [], ?m)"
    using fetch_failure_or_empty_is_noop
      [of "\<lambda>b n. Inr (Some [])" 0 10 _ user_store_init example_enum example_enum ?m]
    by simp
  obtain r m' where res: "async_fetch_logs user_store_init example_enum example_enum ?ok 0 10 ?m = (r, m')"
    by (cases "async_fetch_logs user_store_init example_enum example_enum ?ok 0 10 ?m") blast
  obtain enriched where en:
    "enrich_logs user_store_init (mgr_mac ?m) example_enum example_enum [example_raw 100 ''590305000000'']
       = Inr enriched"
    and len: "length enriched = length [example_raw 100 ''590305000000'']"
    using enrich_logs_result by blast
  from len obtain e where e: "enriched = [e]" by (cases enriched) auto
  from res en have m': "m' = notify_listeners (set_latest_logs enriched ?m)" and r: "r = Inr enriched"
    by (simp_all add: async_fetch_logs_def)
  have writes: "ha_state_writes m' = 1"
    by (simp add: m' notify_listeners_def set_latest_logs_def async_add_listener_def manager_init_def)
  have "ha_state_writes ?m = 0" by (simp add: async_add_listener_def manager_init_def)
  with writes have changed: "m' \<noteq> ?m" by auto
  from fetch_failure_or_empty_is_noop
      [of ?ok 0 10 _ user_store_init example_enum example_enum ?m r m'] res changed
  have "cached m' = enriched" using en by auto
  with res r e changed writes have
    "async_fetch_logs user_store_init example_enum example_enum ?ok 0 10 ?m = (Inr [e], m')
       \<and> m' \<noteq> ?m \<and> cached m' = [e] \<and> ha_state_writes m' = 1"
    by simp
  then have c: "\<exists>e m'. async_fetch_logs user_store_init example_enum example_enum ?ok 0 10 ?m = (Inr [e], m')
       \<and> m' \<noteq> ?m \<and> cached m' = [e] \<and> ha_state_writes m' = 1"
    by blast
  from a b c show ?thesis by (intro conjI)
qed

text \<open>
  C7. \<open>latest_log\<close> is \<open>None\<close> for an empty cache and otherwise the first entry of
  the cache; it does not look for the greatest timestamp, although its docstring says
  "Get the most recent log entry". When the device returns the batch
  \<open>[t = 90, t = 100]\<close>, the fetch caches its enrichment in that order and
  \<open>latest_log\<close> is the entry with timestamp 90, while the entry with timestamp 100 is
  in the cache.
\<close>

theorem latest_log_not_newest:
  "fst (async_fetch_logs user_store_init example_enum example_enum
          (\<lambda>b n. Inr (Some [example_raw 90 ''590302000000'', example_raw 100 ''590305000000'']))
          0 10 (manager_init ''AA:BB''))
     = Inr [\<lparr>timestamp = Some 90, source = Some 1, action = Some 1, payload = Some ''590302000000'',
             user_id = Some 2, user_name = None,
             source_display = ''Manual'', action_name = ''manual''\<rparr>,
            \<lparr>timestamp = Some 100, source = Some 1, action = Some 1, payload = Some ''590305000000'',
             user_id = Some 5, user_name = None,
             source_display = ''Manual'', action_name = ''manual''\<rparr>]
   \<and> latest_log (snd (async_fetch_logs user_store_init example_enum example_enum
          (\<lambda>b n. Inr (Some [example_raw 90 ''590302000000'', example_raw 100 ''590305000000'']))
          0 10 (manager_init ''AA:BB'')))
     = Some \<lparr>timestamp = Some 90, source = Some 1, action = Some 1, payload = Some ''590302000000'',
             user_id = Some 2, user_name = None,
             source_display = ''Manual'', action_name = ''manual''\<rparr>
   \<and> cached (snd (async_fetch_logs user_store_init example_enum example_enum
          (\<lambda>b n. Inr (Some [example_raw 90 ''590302000000'', example_raw 100 ''590305000000'']))
          0 10 (manager_init ''AA:BB''))) ! 1
     = \<lparr>timestamp = Some 100, source = Some 1, action = Some 1, payload = Some ''590305000000'',
        user_id = Some 5, user_name = None,
        source_display = ''Manual'', action_name = ''manual''\<rparr>
   \<and> latest_log (manager_init ''AA:BB'') = None"
proof -
  let ?e90 = "\<lparr>timestamp = Some 90, source = Some 1, action = Some 1, payload = Some ''590302000000'',
             user_id = Some 2, user_name = None,
             source_display = ''Manual'', action_name = ''manual''\<rparr>"
  let ?e100 = "\<lparr>timestamp = Some 100, source = Some 1, action = Some 1, payload = Some ''590305000000'',
             user_id = Some 5, user_name = None,
             source_display = ''Manual'', action_name = ''manual''\<rparr>"
  let ?logs = "[example_raw 90 ''590302000000'', example_raw 100 ''590305000000'']"
  let ?dev = "\<lambda>(b :: int) (n :: int). (Inr (Some ?logs) :: py_error + raw_log list option)"
  have ids: "extract_user_id ''590305000000'' = Inr (Some 5)"
    "extract_user_id ''590302000000'' = Inr (Some 2)"
    by (simp_all add: extract_eval)
  have strs: "py_str 5 = ''5''" "py_str 2 = ''2''"
    by code_simp+
  have labels: "py_title (replace_underscores ''MANUAL'') = ''Manual''" "py_lower ''MANUAL'' = ''manual''"
    by code_simp+
  have mac: "mgr_mac (manager_init ''AA:BB'') = ''AA:BB''" by (simp add: manager_init_def)
  have ev: "enrich_logs user_store_init (mgr_mac (manager_init ''AA:BB'')) example_enum example_enum ?logs
      = Inr [?e90, ?e100]"
    by (simp add: mac enrich_eval ids strs labels user_store_init_def)
  have dev: "?dev 0 10 = Inr (Some ?logs)" by simp
  have ne: "?logs \<noteq> []" by simp
  have fetch: "async_fetch_logs user_store_init example_enum example_enum ?dev 0 10 (manager_init ''AA:BB'')
      = (Inr [?e90, ?e100], notify_listeners (set_latest_logs [?e90, ?e100] (manager_init ''AA:BB'')))"
    using async_fetch_logs_success
      [of ?dev 0 10 ?logs user_store_init "manager_init ''AA:BB''" example_enum example_enum
          "[?e90, ?e100]", OF dev ne ev] .
  have c: "cached (notify_listeners (set_latest_logs [?e90, ?e100] (manager_init ''AA:BB''))) = [?e90, ?e100]"
    by (simp add: cached_notify_listeners cached_set_latest_logs)
  have empty: "latest_log (manager_init ''AA:BB'') = None"
    by (simp add: latest_log_def cached_def manager_init_def)
  have first: "latest_log (notify_listeners (set_latest_logs [?e90, ?e100] (manager_init ''AA:BB'')))
      = Some ?e90"
    by (simp add: latest_log_def c)
  show ?thesis
    by (simp add: fetch first c empty)
qed

subsection \<open>Acceptance and user identity\<close>

lemma selection_ignores_user_fields:
  "newest_valid_loop last_ts (map (\<lambda>e. e\<lparr>user_id := f e, user_name := g e\<rparr>) logs)
     = map_option (\<lambda>e. e\<lparr>user_id := f e, user_name := g e\<rparr>) (newest_valid_loop last_ts logs)"
  by (induction logs) (simp_all add: get_timestamp_def get_payload_def)

lemma enrich_single_without_user:
  assumes "extract_user_id (get_payload raw) = Inr None"
  shows "\<exists>e. enrich_logs st lock S A [raw] = Inr [e] \<and> user_id e = None \<and> user_name e = None
            \<and> timestamp e = timestamp raw \<and> payload e = payload raw"
proof -
  obtain e where e: "enrich_log (async_get_users st lock) S A raw = Inr e"
    and raw: "timestamp e = timestamp raw" "payload e = payload raw"
    and uid: "extract_user_id (get_payload raw) = Inr (user_id e)"
    and un: "user_name e = user_name_of (async_get_users st lock) (user_id e)"
    using enrich_log_result [of "async_get_users st lock" S A raw] by blast
  from uid assms have none: "user_id e = None" by simp
  with un have "user_name e = None" by (simp add: user_name_of_def)
  moreover from e have "enrich_logs st lock S A [raw] = Inr [e]" by (simp add: enrich_logs_def)
  ultimately show ?thesis using none raw by blast
qed

text \<open>
  C10. The selection does not read the user fields: changing \<open>user_id\<close> and
  \<open>user_name\<close> in a batch changes the selected entry in the same way and nothing
  else. And when the device returns one log that is newer than the mark, whose payload
  is valid for the sensor but carries no user id, the fetch caches its enrichment, the
  last-user sensor accepts it, the mark moves to its timestamp and the sensor's value
  is \<open>None\<close>.
\<close>

theorem accepted_entry_without_user:
  "newest_valid_loop last_ts (map (\<lambda>e. e\<lparr>user_id := f e, user_name := g e\<rparr>) batch)
     = map_option (\<lambda>e. e\<lparr>user_id := f e, user_name := g e\<rparr>) (newest_valid_loop last_ts batch)
   \<and> (is_valid_payload (get_payload raw) \<and> extract_user_id (get_payload raw) = Inr None
        \<and> last_processed_timestamp t < get_timestamp raw
        \<and> get_logs base_time max_entries = Inr (Some [raw])
        \<and> listeners m = [LastUserSensor t]
      \<longrightarrow> (\<exists>e m' t'. async_fetch_logs st S A get_logs base_time max_entries m = (Inr [e], m')
             \<and> user_id e = None \<and> user_name e = None \<and> cached m' = [e]
             \<and> listeners m' = [LastUserSensor t'] \<and> current_log t' = Some e
             \<and> last_processed_timestamp t' = get_timestamp raw \<and> native_value t' = None))"
proof (intro conjI impI)
  show "newest_valid_loop last_ts (map (\<lambda>e. e\<lparr>user_id := f e, user_name := g e\<rparr>) batch)
     = map_option (\<lambda>e. e\<lparr>user_id := f e, user_name := g e\<rparr>) (newest_valid_loop last_ts batch)"
    by (rule selection_ignores_user_fields)
next
  assume h: "is_valid_payload (get_payload raw) \<and> extract_user_id (get_payload raw) = Inr None
        \<and> last_processed_timestamp t < get_timestamp raw
        \<and> get_logs base_time max_entries = Inr (Some [raw])
        \<and> listeners m = [LastUserSensor t]"
  then have valid: "is_valid_payload (get_payload raw)"
    and nouser: "extract_user_id (get_payload raw) = Inr None"
    and newer: "last_processed_timestamp t < get_timestamp raw"
    and dev: "get_logs base_time max_entries = Inr (Some [raw])"
    and lis: "listeners m = [LastUserSensor t]" by simp_all
  obtain e where en: "enrich_logs st (mgr_mac m) S A [raw] = Inr [e]"
    and uid: "user_id e = None" and un: "user_name e = None"
    and ts: "timestamp e = timestamp raw" and pl: "payload e = payload raw"
    using enrich_single_without_user [OF nouser] by blast
  let ?m1 = "set_latest_logs [e] m"
  let ?t' = "handle_log_update ?m1 t"
  have fetch: "async_fetch_logs st S A get_logs base_time max_entries m = (Inr [e], notify_listeners ?m1)"
    using dev en by (simp add: async_fetch_logs_def)
  have cache: "cached (notify_listeners ?m1) = [e]"
    by (simp add: cached_notify_listeners cached_set_latest_logs)
  have ls: "listeners (notify_listeners ?m1) = [LastUserSensor ?t']"
    by (simp add: notify_listeners_def listeners_set_latest_logs lis call_listener_def)
  have same_ts: "get_timestamp e = get_timestamp raw" by (simp add: get_timestamp_def ts)
  have same_pl: "get_payload e = get_payload raw" by (simp add: get_payload_def pl)
  have sel: "get_newest_valid_log ?m1 t = Some e"
    using newer valid
    by (simp add: get_newest_valid_log_cached cached_set_latest_logs same_ts same_pl)
  then have t': "?t' = t\<lparr>current_log := Some e, last_processed_timestamp := get_timestamp e\<rparr>"
    by (simp add: handle_log_update_def)
  have cur: "current_log ?t' = Some e" by (simp add: t')
  have mark: "last_processed_timestamp ?t' = get_timestamp raw" by (simp add: t' same_ts)
  have val: "native_value ?t' = None" by (simp add: native_value_def cur un)
  from fetch uid un cache ls cur mark val
  show "\<exists>e m' t'. async_fetch_logs st S A get_logs base_time max_entries m = (Inr [e], m')
             \<and> user_id e = None \<and> user_name e = None \<and> cached m' = [e]
             \<and> listeners m' = [LastUserSensor t'] \<and> current_log t' = Some e
             \<and> last_processed_timestamp t' = get_timestamp raw \<and> native_value t' = None"
    by blast
qed

theorem accepted_entry_without_user_witness:
  "is_valid_payload (get_payload (example_raw 100 ''AABBCCDDEEFF''))
   \<and> extract_user_id (get_payload (example_raw 100 ''AABBCCDDEEFF'')) = Inr None
   \<and> last_processed_timestamp tracker_init < get_timestamp (example_raw 100 ''AABBCCDDEEFF'')
   \<and> listeners (async_add_listener (LastUserSensor tracker_init) (manager_init ''AA:BB''))
       = [LastUserSensor tracker_init]
   \<and> (\<exists>e m' t'. async_fetch_logs user_store_init example_enum example_enum
                   (\<lambda>b n. Inr (Some [example_raw 100 ''AABBCCDDEEFF''])) 0 10
                   (async_add_listener (LastUserSensor tracker_init) (manager_init ''AA:BB''))
                 = (Inr [e], m')
             \<and> user_id e = None \<and> user_name e = None \<and> cached m' = [e]
             \<and> listeners m' = [LastUserSensor t'] \<and> current_log t' = Some e
             \<and> last_processed_timestamp t' = 100 \<and> native_value t' = None)"
proof -
  let ?raw = "example_raw 100 ''AABBCCDDEEFF''"
  let ?m = "async_add_listener (LastUserSensor tracker_init) (manager_init ''AA:BB'')"
  let ?dev = "\<lambda>(b :: int) (n :: int). (Inr (Some [?raw]) :: py_error + raw_log list option)"
  have valid: "is_valid_payload (get_payload ?raw)"
    by (simp add: is_valid_payload_def get_payload_def example_raw_def)
  have nouser: "extract_user_id (get_payload ?raw) = Inr None"
    by (simp add: get_payload_def example_raw_def extract_eval)
  have ts: "get_timestamp ?raw = 100" by (simp add: get_timestamp_def example_raw_def)
  have newer: "last_processed_timestamp tracker_init < get_timestamp ?raw"
    by (simp add: ts tracker_init_def)
  have lis: "listeners ?m = [LastUserSensor tracker_init]"
    by (simp add: async_add_listener_def manager_init_def)
  have dev: "?dev 0 10 = Inr (Some [?raw])" by simp
  from valid nouser newer dev lis
  have "\<exists>e m' t'. async_fetch_logs user_store_init example_enum example_enum ?dev 0 10 ?m = (Inr [e], m')
             \<and> user_id e = None \<and> user_name e = None \<and> cached m' = [e]
             \<and> listeners m' = [LastUserSensor t'] \<and> current_log t' = Some e
             \<and> last_processed_timestamp t' = get_timestamp ?raw \<and> native_value t' = None"
    using accepted_entry_without_user
      [of _ _ _ "[]" ?raw tracker_init ?dev 0 10 ?m user_store_init example_enum example_enum]
    by blast
  then have ex: "\<exists>e m' t'. async_fetch_logs user_store_init example_enum example_enum ?dev 0 10 ?m = (Inr [e], m')
             \<and> user_id e = None \<and> user_name e = None \<and> cached m' = [e]
             \<and> listeners m' = [LastUserSensor t'] \<and> current_log t' = Some e
             \<and> last_processed_timestamp t' = 100 \<and> native_value t' = None"
    by (simp only: ts)
  from valid nouser newer lis ex show ?thesis by (intro conjI)
qed

end
